theory Spec2Isabelle
  imports Complex_Main "HOL-Library.Multiset" "HOL-Library.Sublist"
begin

section \<open>JavaScript values and thrown values\<close>

text \<open>
  The adapter handles untyped data (\<^verbatim>\<open>any\<close>): the input schema of a remote tool, which
  is what \<^verbatim>\<open>ListToolsResultSchema\<close> parsed out of a JSON message, and the arguments of an
  invocation. A value is JSON data, \<^verbatim>\<open>undefined\<close>, or a function (every object inherits
  some from \<^verbatim>\<open>Object.prototype\<close>). Numbers are rationals: no operation of the adapter
  computes with them. An object is the list of its own enumerable entries in the order of
  \<^verbatim>\<open>Object.entries\<close>.
\<close>

datatype jsthrown = ErrorObj string | NonError string

text \<open>\<^verbatim>\<open>error instanceof Error ? error.message : String(error)\<close>; a thrown value that is
  not an \<^verbatim>\<open>Error\<close> is kept as its \<^verbatim>\<open>String(...)\<close> form.\<close>

fun error_text :: "jsthrown \<Rightarrow> string" where
  "error_text (ErrorObj message) = message"
| "error_text (NonError s) = s"

datatype jsval =
    JUndefined
  | JNull
  | JBool bool
  | JNum rat
  | JStr string
  | JArr "jsval list"
  | JObj "(string \<times> jsval) list"
  | JFunction

definition andThen :: "jsthrown + 'a \<Rightarrow> ('a \<Rightarrow> jsthrown + 'b) \<Rightarrow> jsthrown + 'b" where
  "andThen m f = (case m of Inl e \<Rightarrow> Inl e | Inr x \<Rightarrow> f x)"

text \<open>\<^verbatim>\<open>try { body } catch (error) { handler }\<close>.\<close>

definition try_catch :: "jsthrown + 'a \<Rightarrow> (jsthrown \<Rightarrow> jsthrown + 'a) \<Rightarrow> jsthrown + 'a" where
  "try_catch body handler = (case body of Inl error \<Rightarrow> handler error | Inr x \<Rightarrow> Inr x)"

fun truthy :: "jsval \<Rightarrow> bool" where
  "truthy JUndefined = False"
| "truthy JNull = False"
| "truthy (JBool b) = b"
| "truthy (JNum r) = (r \<noteq> 0)"
| "truthy (JStr s) = (s \<noteq> [])"
| "truthy (JArr xs) = True"
| "truthy (JObj kvs) = True"
| "truthy JFunction = True"

text \<open>\<^verbatim>\<open>typeof v === 'object'\<close>.\<close>

fun typeof_object :: "jsval \<Rightarrow> bool" where
  "typeof_object JNull = True"
| "typeof_object (JArr xs) = True"
| "typeof_object (JObj kvs) = True"
| "typeof_object v = False"

text \<open>
  \<^verbatim>\<open>v.k\<close> for the property names the adapter reads (\<^verbatim>\<open>type\<close>, \<^verbatim>\<open>properties\<close>,
  \<^verbatim>\<open>required\<close>, \<^verbatim>\<open>description\<close>), none of which an array or a primitive has. Reading a
  property of \<^verbatim>\<open>undefined\<close> or \<^verbatim>\<open>null\<close> is a TypeError.
\<close>

fun get_prop :: "jsval \<Rightarrow> string \<Rightarrow> jsthrown + jsval" where
  "get_prop (JObj kvs) k = Inr (case map_of kvs k of None \<Rightarrow> JUndefined | Some v \<Rightarrow> v)"
| "get_prop JUndefined k = Inl (ErrorObj (''Cannot read properties of undefined (reading '' @ k @ '')''))"
| "get_prop JNull k = Inl (ErrorObj (''Cannot read properties of null (reading '' @ k @ '')''))"
| "get_prop v k = Inr JUndefined"

text \<open>Optional chaining \<^verbatim>\<open>v?.k\<close>.\<close>

fun get_prop_opt :: "jsval \<Rightarrow> string \<Rightarrow> jsthrown + jsval" where
  "get_prop_opt JUndefined k = Inr JUndefined"
| "get_prop_opt JNull k = Inr JUndefined"
| "get_prop_opt v k = get_prop v k"

fun string_of_nat :: "nat \<Rightarrow> string" where
  "string_of_nat n =
     (if n < 10 then [char_of (48 + n)]
      else string_of_nat (n div 10) @ [char_of (48 + n mod 10)])"

fun index_entries :: "nat \<Rightarrow> jsval list \<Rightarrow> (string \<times> jsval) list" where
  "index_entries i [] = []"
| "index_entries i (x # xs) = (string_of_nat i, x) # index_entries (Suc i) xs"

text \<open>\<^verbatim>\<open>Object.entries(v)\<close>: the entries of an object, the indexed elements of an array,
  the indexed characters of a string, nothing for a number or a boolean.\<close>

fun object_entries :: "jsval \<Rightarrow> jsthrown + (string \<times> jsval) list" where
  "object_entries (JObj kvs) = Inr kvs"
| "object_entries (JArr xs) = Inr (index_entries 0 xs)"
| "object_entries (JStr s) = Inr (index_entries 0 (map (\<lambda>c. JStr [c]) s))"
| "object_entries JUndefined = Inl (ErrorObj ''Cannot convert undefined or null to object'')"
| "object_entries JNull = Inl (ErrorObj ''Cannot convert undefined or null to object'')"
| "object_entries v = Inr []"

section \<open>Validators built with the zod library\<close>

text \<open>
  \<^verbatim>\<open>createSchemaModel\<close> builds its result with calls of the zod library, which is not part
  of the repository. A validator is the tree of the builder calls made
  (\<^verbatim>\<open>z.string()\<close>, \<^verbatim>\<open>z.number()\<close>, \<^verbatim>\<open>z.boolean()\<close>, \<^verbatim>\<open>z.number().int()\<close>, \<^verbatim>\<open>z.any()\<close>,
  \<^verbatim>\<open>.optional()\<close>, \<^verbatim>\<open>.describe(d)\<close>), and \<open>zod_accepts\<close> gives each the parsing behaviour
  the library documents: the primitive validators reject \<^verbatim>\<open>undefined\<close>, \<^verbatim>\<open>z.any()\<close> accepts
  every value including \<^verbatim>\<open>undefined\<close>, \<^verbatim>\<open>.optional()\<close> adds \<^verbatim>\<open>undefined\<close>, a description
  does not change what is accepted.
\<close>

datatype zodType =
    ZodString
  | ZodNumber
  | ZodBoolean
  | ZodNumberInt
  | ZodAny
  | ZodOptional zodType
  | ZodDescribed zodType jsval

fun zod_accepts :: "zodType \<Rightarrow> jsval \<Rightarrow> bool" where
  "zod_accepts ZodString v = (case v of JStr s \<Rightarrow> True | _ \<Rightarrow> False)"
| "zod_accepts ZodNumber v = (case v of JNum r \<Rightarrow> True | _ \<Rightarrow> False)"
| "zod_accepts ZodBoolean v = (case v of JBool b \<Rightarrow> True | _ \<Rightarrow> False)"
| "zod_accepts ZodNumberInt v = (case v of JNum r \<Rightarrow> of_int \<lfloor>r\<rfloor> = r | _ \<Rightarrow> False)"
| "zod_accepts ZodAny v = True"
| "zod_accepts (ZodOptional t) v = (v = JUndefined \<or> zod_accepts t v)"
| "zod_accepts (ZodDescribed t d) v = zod_accepts t v"

datatype unknownKeys = Strip | Passthrough

record zodObject =
  shape :: "(string \<times> zodType) list"
  unknown_keys :: unknownKeys

text \<open>\<^verbatim>\<open>z.object(shape)\<close> strips the keys it does not know; \<^verbatim>\<open>.passthrough()\<close> keeps them.\<close>

definition z_object :: "(string \<times> zodType) list \<Rightarrow> zodObject" where
  "z_object sh = \<lparr>shape = sh, unknown_keys = Strip\<rparr>"

definition passthrough :: "zodObject \<Rightarrow> zodObject" where
  "passthrough obj = obj\<lparr>unknown_keys := Passthrough\<rparr>"

text \<open>
  \<^verbatim>\<open>data[key]\<close> on a plain object: its own entry, otherwise what it inherits from
  \<^verbatim>\<open>Object.prototype\<close> (the prototype itself under \<^verbatim>\<open>__proto__\<close>, a function under the
  method names), otherwise \<^verbatim>\<open>undefined\<close>.
\<close>

definition inherited_methods :: "string list" where
  "inherited_methods =
     [''constructor'', ''hasOwnProperty'', ''isPrototypeOf'', ''propertyIsEnumerable'',
      ''toLocaleString'', ''toString'', ''valueOf'', ''__defineGetter__'', ''__defineSetter__'',
      ''__lookupGetter__'', ''__lookupSetter__'']"

definition field :: "(string \<times> jsval) list \<Rightarrow> string \<Rightarrow> jsval" where
  "field kvs k =
     (case map_of kvs k of
        Some v \<Rightarrow> v
      | None \<Rightarrow>
          if k = ''__proto__'' then JObj []
          else if k \<in> set inherited_methods then JFunction
          else JUndefined)"

text \<open>
  Parsing an input with an object validator: \<open>None\<close> when the input is rejected (not an
  object, or a shape key whose validator rejects \<^verbatim>\<open>data[key]\<close>), otherwise the parsed
  object: the shape keys that are present or have a value, then, under
  \<^verbatim>\<open>passthrough\<close>, the other keys of the input; a key \<^verbatim>\<open>__proto__\<close> is never copied.
\<close>

definition zod_parse :: "zodObject \<Rightarrow> jsval \<Rightarrow> jsval option" where
  "zod_parse obj input =
     (case input of
        JObj kvs \<Rightarrow>
          if list_all (\<lambda>(k, t). zod_accepts t (field kvs k)) (shape obj)
          then Some (JObj
            (map (\<lambda>(k, t). (k, field kvs k))
               (filter (\<lambda>(k, t). k \<noteq> ''__proto__'' \<and>
                    (k \<in> fst ` set kvs \<or> field kvs k \<noteq> JUndefined)) (shape obj))
             @ (case unknown_keys obj of
                  Strip \<Rightarrow> []
                | Passthrough \<Rightarrow>
                    filter (\<lambda>(k, v). k \<noteq> ''__proto__'' \<and> k \<notin> fst ` set (shape obj)) kvs)))
          else None
      | _ \<Rightarrow> None)"

definition accepts :: "zodObject \<Rightarrow> jsval \<Rightarrow> bool" where
  "accepts obj input = (zod_parse obj input \<noteq> None)"

section \<open>createSchemaModel\<close>

text \<open>
  The accumulator object of the reduction: its own entries and, once an assignment under
  the key \<^verbatim>\<open>__proto__\<close> has replaced \<^verbatim>\<open>Object.prototype\<close> by a validator, that
  validator as its prototype.
\<close>

record accumulator =
  acc_proto :: "zodType option"
  acc_own :: "(string \<times> zodType) list"

definition empty_acc :: accumulator where
  "empty_acc = \<lparr>acc_proto = None, acc_own = []\<rparr>"

fun set_key :: "(string \<times> 'v) list \<Rightarrow> string \<Rightarrow> 'v \<Rightarrow> (string \<times> 'v) list" where
  "set_key [] key v = [(key, v)]"
| "set_key ((k, w) # acc) key v = (if k = key then (k, v) # acc else (k, w) # set_key acc key v)"

text \<open>
  \<^verbatim>\<open>acc[key] = v\<close>, \<open>v\<close> a validator, in the strict mode of a module. Under the key
  \<^verbatim>\<open>__proto__\<close> the assignment makes \<open>v\<close> the prototype of \<open>acc\<close> and creates no entry.
  A key that \<open>acc\<close> owns is overwritten. A key that \<open>acc\<close> does not own is looked up in
  the prototype: when the validator there answers it with an accessor that has no setter,
  the assignment is a TypeError (the engine words its message, and the \<^verbatim>\<open>catch\<close> only
  logs it); otherwise the entry is created. \<open>readonly p key\<close> says that the validator \<open>p\<close> has such
  an accessor \<open>key\<close>: which names those are is the zod library's (\<^verbatim>\<open>description\<close> on
  every validator of zod 3; \<^verbatim>\<open>minLength\<close> and others on a string validator).
\<close>

definition assign ::
  "(zodType \<Rightarrow> string \<Rightarrow> bool) \<Rightarrow> accumulator \<Rightarrow> string \<Rightarrow> zodType \<Rightarrow> jsthrown + accumulator" where
  "assign readonly acc key v =
     (if key = ''__proto__'' then Inr (acc\<lparr>acc_proto := Some v\<rparr>)
      else if key \<in> fst ` set (acc_own acc)
        then Inr (acc\<lparr>acc_own := set_key (acc_own acc) key v\<rparr>)
      else
        (case acc_proto acc of
           None \<Rightarrow> Inr (acc\<lparr>acc_own := set_key (acc_own acc) key v\<rparr>)
         | Some p \<Rightarrow>
             if readonly p key
             then Inl (ErrorObj (''Cannot set property '' @ key @ '' which has only a getter''))
             else Inr (acc\<lparr>acc_own := set_key (acc_own acc) key v\<rparr>)))"

text \<open>The \<^verbatim>\<open>switch (propSchema?.type)\<close>, which compares with \<^verbatim>\<open>===\<close>.\<close>

definition basic_type :: "jsval \<Rightarrow> zodType" where
  "basic_type ty =
     (if ty = JStr ''string'' then ZodString
      else if ty = JStr ''number'' then ZodNumber
      else if ty = JStr ''boolean'' then ZodBoolean
      else if ty = JStr ''integer'' then ZodNumberInt
      else ZodAny)"

text \<open>\<^verbatim>\<open>Array.isArray(inputSchema.required) && inputSchema.required.includes(key)\<close>.\<close>

definition isRequired :: "jsval \<Rightarrow> string \<Rightarrow> jsthrown + bool" where
  "isRequired inputSchema key =
     andThen (get_prop inputSchema ''required'') (\<lambda>required.
       case required of
         JArr xs \<Rightarrow> Inr (JStr key \<in> set xs)
       | _ \<Rightarrow> Inr False)"

text \<open>
  The body of the reducer, for one entry \<^verbatim>\<open>[key, propSchema]\<close>. The second assignment
  reads \<^verbatim>\<open>acc[key]\<close> back, which is the validator just stored (also under
  \<^verbatim>\<open>__proto__\<close>, where it is read back from the prototype).
\<close>

definition reducer ::
  "(zodType \<Rightarrow> string \<Rightarrow> bool) \<Rightarrow> jsval \<Rightarrow> accumulator \<Rightarrow> string \<times> jsval
     \<Rightarrow> jsthrown + accumulator" where
  "reducer readonly inputSchema acc entry =
     (case entry of (key, propSchema) \<Rightarrow>
        andThen (get_prop_opt propSchema ''type'') (\<lambda>ty.
        let zodType = basic_type ty in
        andThen (isRequired inputSchema key) (\<lambda>req.
        let stored = (if req then zodType else ZodOptional zodType) in
        andThen (assign readonly acc key stored) (\<lambda>acc1.
        andThen (get_prop_opt propSchema ''description'') (\<lambda>description.
          if truthy description
          then assign readonly acc1 key (ZodDescribed stored description)
          else Inr acc1)))))"

text \<open>\<^verbatim>\<open>entries.reduce(f, init)\<close> with a callback that may throw.\<close>

fun reduce :: "('acc \<Rightarrow> 'x \<Rightarrow> jsthrown + 'acc) \<Rightarrow> 'acc \<Rightarrow> 'x list \<Rightarrow> jsthrown + 'acc" where
  "reduce f acc [] = Inr acc"
| "reduce f acc (x # xs) = (case f acc x of Inl e \<Rightarrow> Inl e | Inr acc' \<Rightarrow> reduce f acc' xs)"

text \<open>The \<^verbatim>\<open>try\<close> block of \<^verbatim>\<open>createSchemaModel\<close>.\<close>

definition convert_properties :: "(zodType \<Rightarrow> string \<Rightarrow> bool) \<Rightarrow> jsval \<Rightarrow> jsthrown + zodObject" where
  "convert_properties readonly inputSchema =
     andThen (get_prop inputSchema ''properties'') (\<lambda>properties.
     andThen (object_entries properties) (\<lambda>entries.
     andThen (reduce (reducer readonly inputSchema) empty_acc entries) (\<lambda>schemaProperties.
       Inr (z_object (acc_own schemaProperties)))))"

text \<open>
  The condition of the guard, \<^verbatim>\<open>!inputSchema || typeof inputSchema !== 'object' ||
  inputSchema.type !== 'object' || !inputSchema.properties\<close>, evaluated left to right; it
  is outside the \<^verbatim>\<open>try\<close>.
\<close>

definition invalid_or_empty :: "jsval \<Rightarrow> jsthrown + bool" where
  "invalid_or_empty inputSchema =
     (if \<not> truthy inputSchema \<or> \<not> typeof_object inputSchema then Inr True
      else
        andThen (get_prop inputSchema ''type'') (\<lambda>ty.
          if ty \<noteq> JStr ''object'' then Inr True
          else andThen (get_prop inputSchema ''properties'') (\<lambda>properties.
            Inr (\<not> truthy properties))))"

definition createSchemaModel :: "(zodType \<Rightarrow> string \<Rightarrow> bool) \<Rightarrow> jsval \<Rightarrow> jsthrown + zodObject" where
  "createSchemaModel readonly inputSchema =
     andThen (invalid_or_empty inputSchema) (\<lambda>invalid.
       if invalid then Inr (z_object [])
       else
         try_catch (convert_properties readonly inputSchema)
           (\<lambda>error. Inr (passthrough (z_object []))))"

section \<open>MCPToolSSE: the callable of one remote tool\<close>

text \<open>The content parts of a \<^verbatim>\<open>tools/call\<close> result, as \<^verbatim>\<open>CallToolResultSchema\<close> admits them.\<close>

datatype contentPart =
    TextContent string
  | ImageContent string string
  | AudioContent string string
  | EmbeddedResource jsval

fun part_type :: "contentPart \<Rightarrow> string" where
  "part_type (TextContent t) = ''text''"
| "part_type (ImageContent d m) = ''image''"
| "part_type (AudioContent d m) = ''audio''"
| "part_type (EmbeddedResource r) = ''resource''"

text \<open>\<^verbatim>\<open>part.text\<close> as \<^verbatim>\<open>join\<close> renders it: \<^verbatim>\<open>undefined\<close> is the empty string there.\<close>

fun part_text :: "contentPart \<Rightarrow> string" where
  "part_text (TextContent t) = t"
| "part_text p = []"

fun join :: "string \<Rightarrow> string list \<Rightarrow> string" where
  "join sep [] = []"
| "join sep [x] = x"
| "join sep (x # y # ys) = x @ sep @ join sep (y # ys)"

definition newline :: string where
  "newline = [CHR 0x0A]"

record callToolRequest =
  request_method :: string
  params_name :: string
  params_arguments :: jsval

text \<open>
  The function wrapped by \<^verbatim>\<open>tool(...)\<close>. \<open>request\<close> is \<^verbatim>\<open>client.request(_, CallToolResultSchema)\<close>:
  it resolves with the content parts of the response or rejects.
\<close>

definition MCPToolSSE_func ::
  "(callToolRequest \<Rightarrow> jsthrown + contentPart list) \<Rightarrow> string \<Rightarrow> jsval \<Rightarrow> jsthrown + string" where
  "MCPToolSSE_func request name input =
     try_catch
       (andThen (request \<lparr>request_method = ''tools/call'', params_name = name, params_arguments = input\<rparr>)
          (\<lambda>content.
             let responseText =
               join newline (map part_text (filter (\<lambda>part. part_type part = ''text'') content))
             in Inr (if responseText \<noteq> [] then responseText else ''[No text content returned]'')))
       (\<lambda>error. Inr (''Error executing tool '' @ name @ '': '' @ error_text error))"

text \<open>What the specification says a successful invocation returns.\<close>

definition spec_text_parts :: "contentPart list \<Rightarrow> string list" where
  "spec_text_parts content = [t. TextContent t \<leftarrow> content]"

section \<open>SSEMCPToolkit\<close>

record mcpClient =
  client_name :: string
  client_version :: string
  connected :: "string option"

record transport =
  transport_url :: string

text \<open>A tool descriptor of a \<^verbatim>\<open>tools/list\<close> result, as \<^verbatim>\<open>ListToolsResultSchema\<close> admits it.\<close>

record mcpTool =
  mcp_name :: string
  mcp_description :: "string option"
  inputSchema :: jsval

record tool =
  tool_client :: mcpClient
  tool_name :: string
  tool_description :: string
  argsSchema :: zodObject

record toolkit =
  tools :: "tool list"
  rawTools :: "mcpTool list option"
  client :: "mcpClient option"
  transport :: "transport option"
  sseParams :: string

text \<open>
  What is outside the adapter: whether \<^verbatim>\<open>new URL(s)\<close> accepts a string, whether
  \<^verbatim>\<open>client.connect\<close> resolves for a URL (\<open>None\<close>) or rejects, what the \<^verbatim>\<open>tools/list\<close>
  request resolves with or rejects with, and which accessors without a setter the
  validators of the zod library have.
\<close>

record world =
  url_parses :: "string \<Rightarrow> bool"
  connect :: "string \<Rightarrow> jsthrown option"
  list_tools :: "jsthrown + mcpTool list"
  readonly_accessor :: "zodType \<Rightarrow> string \<Rightarrow> bool"

definition SSEMCPToolkit :: "world \<Rightarrow> string \<Rightarrow> jsthrown + toolkit" where
  "SSEMCPToolkit w url =
     (if url = [] then Inl (ErrorObj ''SSEConnectionParameters with a valid URL are required.'')
      else if \<not> url_parses w url then Inl (ErrorObj ''Invalid URL'')
      else Inr \<lparr>tools = [], rawTools = None, client = None,
                transport = Some \<lparr>transport_url = url\<rparr>, sseParams = url\<rparr>)"

text \<open>\<^verbatim>\<open>Promise.all(xs.map(f))\<close>: the results in order, or the first rejection.\<close>

fun map_all :: "('a \<Rightarrow> jsthrown + 'b) \<Rightarrow> 'a list \<Rightarrow> jsthrown + 'b list" where
  "map_all f [] = Inr []"
| "map_all f (x # xs) =
     (case f x of
        Inl e \<Rightarrow> Inl e
      | Inr y \<Rightarrow> (case map_all f xs of Inl e \<Rightarrow> Inl e | Inr ys \<Rightarrow> Inr (y # ys)))"

text \<open>The callback of \<^verbatim>\<open>get_tools\<close>, which makes one tool from one descriptor.\<close>

definition make_tool ::
  "(zodType \<Rightarrow> string \<Rightarrow> bool) \<Rightarrow> mcpClient \<Rightarrow> mcpTool \<Rightarrow> jsthrown + tool" where
  "make_tool readonly c mcpTool =
     andThen (createSchemaModel readonly (inputSchema mcpTool)) (\<lambda>schema.
       Inr \<lparr>tool_client = c,
            tool_name = mcp_name mcpTool,
            tool_description =
              (case mcp_description mcpTool of
                 None \<Rightarrow> ''Invoke '' @ mcp_name mcpTool @ '' via MCP''
               | Some d \<Rightarrow> if d \<noteq> [] then d else ''Invoke '' @ mcp_name mcpTool @ '' via MCP''),
            argsSchema = schema\<rparr>)"

definition get_tools :: "(zodType \<Rightarrow> string \<Rightarrow> bool) \<Rightarrow> toolkit \<Rightarrow> jsthrown + tool list" where
  "get_tools readonly tk =
     (case rawTools tk of
        None \<Rightarrow> Inl (ErrorObj ''Toolkit not initialized. Call initialize() first.'')
      | Some raw \<Rightarrow>
          (case client tk of
             None \<Rightarrow> Inl (ErrorObj ''Toolkit not initialized. Call initialize() first.'')
           | Some c \<Rightarrow> map_all (make_tool readonly c) raw))"

definition new_client :: mcpClient where
  "new_client = \<lparr>client_name = ''flowise-sse-client'', client_version = ''1.0.0'', connected = None\<rparr>"

text \<open>The \<^verbatim>\<open>try\<close> block of \<^verbatim>\<open>initialize\<close>, on a toolkit whose client was just created.\<close>

definition connect_and_list :: "world \<Rightarrow> transport \<Rightarrow> toolkit \<Rightarrow> jsthrown + toolkit" where
  "connect_and_list w tr tk =
     (case connect w (transport_url tr) of
        Some error \<Rightarrow> Inl error
      | None \<Rightarrow>
          let tk1 = tk\<lparr>client := Some (new_client\<lparr>connected := Some (transport_url tr)\<rparr>)\<rparr> in
          andThen (list_tools w) (\<lambda>raw.
          let tk2 = tk1\<lparr>rawTools := Some raw\<rparr> in
          andThen (get_tools (readonly_accessor w) tk2) (\<lambda>ts. Inr (tk2\<lparr>tools := ts\<rparr>))))"

definition initialize :: "world \<Rightarrow> toolkit \<Rightarrow> (jsthrown + unit) \<times> toolkit" where
  "initialize w tk =
     (if rawTools tk = None then
        let tk1 = tk\<lparr>client := Some new_client\<rparr> in
        (case transport tk1 of
           None \<Rightarrow> (Inl (ErrorObj ''SSE Transport is not initialized.''), tk1)
         | Some tr \<Rightarrow>
             (case connect_and_list w tr tk1 of
                Inr tk2 \<Rightarrow> (Inr (), tk2)
              | Inl error \<Rightarrow>
                  (Inl (ErrorObj (''Failed to connect or list tools from MCP server at ''
                          @ sseParams tk1 @ '': '' @ error_text error)),
                   tk1\<lparr>client := None, transport := None, rawTools := None, tools := []\<rparr>)))
      else (Inr (), tk))"

text \<open>Successive \<^verbatim>\<open>initialize()\<close> calls on one instance, each against the world of its time.\<close>

fun initialize_all :: "world list \<Rightarrow> toolkit \<Rightarrow> (jsthrown + unit) list \<times> toolkit" where
  "initialize_all [] tk = ([], tk)"
| "initialize_all (w # ws) tk =
     (case initialize w tk of
        (r, tk1) \<Rightarrow> (case initialize_all ws tk1 of (rs, tk2) \<Rightarrow> (r # rs, tk2)))"

section \<open>MakeTool: the discovery callback and the materializer\<close>

text \<open>
  The credential data the host hands over (\<^verbatim>\<open>getCredentialData\<close> is the host's): the two
  fields of the \<^verbatim>\<open>makeApi\<close> credential, each a string when present.
\<close>

record credentialData =
  makeZone :: "string option"
  mcpToken :: "string option"

text \<open>\<^verbatim>\<open>!credentialData?.makeZone || !credentialData?.mcpToken\<close>.\<close>

definition falsy_field :: "string option \<Rightarrow> bool" where
  "falsy_field f = (case f of None \<Rightarrow> True | Some s \<Rightarrow> s = [])"

definition credentials_missing :: "credentialData option \<Rightarrow> bool" where
  "credentials_missing cd =
     (case cd of
        None \<Rightarrow> True
      | Some c \<Rightarrow> falsy_field (makeZone c) \<or> falsy_field (mcpToken c))"

definition sseUrl :: "credentialData option \<Rightarrow> string" where
  "sseUrl cd =
     (case cd of
        None \<Rightarrow> []
      | Some c \<Rightarrow>
          ''https://'' @ (case makeZone c of None \<Rightarrow> [] | Some z \<Rightarrow> z)
            @ ''/mcp/api/v1/u/'' @ (case mcpToken c of None \<Rightarrow> [] | Some t \<Rightarrow> t) @ ''/sse'')"

record nodeOption =
  label :: string
  name :: string
  description :: string

text \<open>
  \<^verbatim>\<open>xs.sort(compare)\<close>: the sort is stable, and for a comparator that is a consistent
  ordering its result is the one of a stable insertion sort.
\<close>

fun insert_sorted :: "('a \<Rightarrow> 'a \<Rightarrow> int) \<Rightarrow> 'a \<Rightarrow> 'a list \<Rightarrow> 'a list" where
  "insert_sorted compare x [] = [x]"
| "insert_sorted compare x (y # ys) =
     (if compare x y \<le> 0 then x # y # ys else y # insert_sorted compare x ys)"

definition array_sort :: "('a \<Rightarrow> 'a \<Rightarrow> int) \<Rightarrow> 'a list \<Rightarrow> 'a list" where
  "array_sort compare xs = foldr (insert_sorted compare) xs []"

definition scenario_of :: "tool \<Rightarrow> nodeOption" where
  "scenario_of t =
     \<lparr>label = tool_name t,
      name = tool_name t,
      description = (if tool_description t \<noteq> [] then tool_description t else tool_name t)\<rparr>"

text \<open>\<^verbatim>\<open>new SSEMCPToolkit({ url })\<close> followed by \<^verbatim>\<open>await toolkit.initialize()\<close>.\<close>

definition fresh_session :: "world \<Rightarrow> string \<Rightarrow> jsthrown + toolkit" where
  "fresh_session w url =
     andThen (SSEMCPToolkit w url) (\<lambda>toolkit.
       case initialize w toolkit of
         (Inl error, toolkit1) \<Rightarrow> Inl error
       | (Inr u, toolkit1) \<Rightarrow> Inr toolkit1)"

text \<open>\<open>localeCompare\<close> is \<^verbatim>\<open>String.prototype.localeCompare\<close> of the host's locale.\<close>

definition listMakeScenarios ::
  "(string \<Rightarrow> string \<Rightarrow> int) \<Rightarrow> world \<Rightarrow> credentialData option \<Rightarrow> jsthrown + nodeOption list" where
  "listMakeScenarios localeCompare w cd =
     (if credentials_missing cd then
        Inr [\<lparr>label = ''Configure Make.com Credentials First'', name = ''NO_CRED'',
              description = ''Credential details missing.''\<rparr>]
      else
        try_catch
          (andThen (fresh_session w (sseUrl cd)) (\<lambda>toolkit.
             if tools toolkit = [] then
               Inr [\<lparr>label = ''No Scenarios Found'', name = ''NO_SCENARIOS'',
                     description = ''Check Make.com MCP server or token.''\<rparr>]
             else
               Inr (array_sort (\<lambda>a b. localeCompare (label a) (label b))
                      (map scenario_of (tools toolkit)))))
          (\<lambda>error.
             Inr [\<lparr>label = ''Error Loading Scenarios'', name = ''LOAD_ERROR'',
                   description = take 100 (error_text error)\<rparr>]))"

text \<open>
  \<open>mcpActions\<close> is \<^verbatim>\<open>nodeData.inputs?.mcpActions\<close>, \<^verbatim>\<open>undefined\<close> when absent;
  \<^verbatim>\<open>selectedActions.includes(tool.name)\<close> finds a name among the elements that are that string.
\<close>

definition init :: "world \<Rightarrow> credentialData option \<Rightarrow> jsval \<Rightarrow> jsthrown + tool list" where
  "init w cd mcpActions =
     (if credentials_missing cd then
        Inl (ErrorObj ''Make.com credentials are not configured for this node.'')
      else
        let selectedActions = (if truthy mcpActions then mcpActions else JArr []) in
        (case selectedActions of
           JArr selected \<Rightarrow>
             if selected = [] then Inr []
             else
               try_catch
                 (andThen (fresh_session w (sseUrl cd)) (\<lambda>toolkit.
                    Inr (filter (\<lambda>t. JStr (tool_name t) \<in> set selected) (tools toolkit))))
                 (\<lambda>error. Inl (ErrorObj (''Failed to initialize MakeTool: '' @ error_text error)))
         | _ \<Rightarrow> Inr []))"

section \<open>Concrete inputs\<close>

definition schema_ab :: jsval where
  "schema_ab =
     JObj [(''type'', JStr ''object''),
           (''properties'',
              JObj [(''a'', JObj [(''type'', JStr ''string'')]),
                    (''b'', JObj [(''type'', JStr ''number'')])]),
           (''required'', JArr [JStr ''a''])]"

text \<open>
  The accessors without a setter of the validators of zod 3.22 (later versions add some
  to the string validator): \<^verbatim>\<open>description\<close> on every validator, further ones on a string
  and on a number validator; \<^verbatim>\<open>describe\<close> keeps the class of a validator.
\<close>

fun undescribed :: "zodType \<Rightarrow> zodType" where
  "undescribed (ZodDescribed t d) = undescribed t"
| "undescribed t = t"

definition zod3_readonly :: "zodType \<Rightarrow> string \<Rightarrow> bool" where
  "zod3_readonly p key =
     (key = ''description''
      \<or> (undescribed p = ZodString
          \<and> key \<in> set [''isDatetime'', ''isEmail'', ''isURL'', ''isEmoji'', ''isUUID'', ''isCUID'',
                       ''isCUID2'', ''isULID'', ''isIP'', ''minLength'', ''maxLength''])
      \<or> (undescribed p \<in> {ZodNumber, ZodNumberInt}
          \<and> key \<in> set [''minValue'', ''maxValue'', ''isInt'', ''isFinite'']))"

definition unreachable :: world where
  "unreachable =
     \<lparr>url_parses = (\<lambda>u. True),
      connect = (\<lambda>u. Some (ErrorObj ''connect ECONNREFUSED'')),
      list_tools = Inl (ErrorObj ''Not connected''),
      readonly_accessor = zod3_readonly\<rparr>"

definition serving :: "mcpTool list \<Rightarrow> world" where
  "serving catalog =
     \<lparr>url_parses = (\<lambda>u. True), connect = (\<lambda>u. None), list_tools = Inr catalog,
      readonly_accessor = zod3_readonly\<rparr>"

definition descriptor :: "string \<Rightarrow> mcpTool" where
  "descriptor n = \<lparr>mcp_name = n, mcp_description = None, inputSchema = schema_ab\<rparr>"

definition us1 :: "credentialData option" where
  "us1 = Some \<lparr>makeZone = Some ''us1.make.com'', mcpToken = Some ''secret''\<rparr>"

text \<open>A comparator to run the sort with: the order of the character codes.\<close>

fun codeCompare :: "string \<Rightarrow> string \<Rightarrow> int" where
  "codeCompare [] [] = 0"
| "codeCompare [] (y # ys) = - 1"
| "codeCompare (x # xs) [] = 1"
| "codeCompare (x # xs) (y # ys) =
     (if of_char x < (of_char y :: nat) then - 1
      else if of_char y < (of_char x :: nat) then 1
      else codeCompare xs ys)"

text \<open>A session whose \<^verbatim>\<open>tools/call\<close> request rejects, and one that answers with three parts.\<close>

definition refusing :: "callToolRequest \<Rightarrow> jsthrown + contentPart list" where
  "refusing r = Inl (ErrorObj ''fetch failed'')"

definition answering :: "callToolRequest \<Rightarrow> jsthrown + contentPart list" where
  "answering r = Inr [TextContent ''done'', ImageContent ''aGk='' ''image/png'', TextContent ''ok'']"

text \<open>The toolkit \<^verbatim>\<open>new SSEMCPToolkit({ url })\<close> makes for the URL of \<open>us1\<close>.\<close>

definition fresh_toolkit :: toolkit where
  "fresh_toolkit =
     \<lparr>tools = [], rawTools = None, client = None,
      transport = Some \<lparr>transport_url = sseUrl us1\<rparr>, sseParams = sseUrl us1\<rparr>"

text \<open>
  What the specification says discovery lists for one descriptor of the catalog: its name
  (also the label) and its description, the description of \<^verbatim>\<open>get_tools\<close> when it has none.
\<close>

definition discovered_option :: "mcpTool \<Rightarrow> nodeOption" where
  "discovered_option d =
     \<lparr>label = mcp_name d,
      name = mcp_name d,
      description =
        (case mcp_description d of
           None \<Rightarrow> ''Invoke '' @ mcp_name d @ '' via MCP''
         | Some s \<Rightarrow> if s = [] then ''Invoke '' @ mcp_name d @ '' via MCP'' else s)\<rparr>"

definition two_tools :: "mcpTool list" where
  "two_tools = [descriptor ''zeta'', descriptor ''alpha'']"

text \<open>
  An input schema whose conversion throws (the property \<^verbatim>\<open>__proto__\<close> makes a validator
  the prototype of the accumulator, which then refuses the entry \<^verbatim>\<open>description\<close>), and
  a toolkit that holds a fetched catalog and a client.
\<close>

definition schema_proto :: jsval where
  "schema_proto =
     JObj [(''type'', JStr ''object''),
           (''properties'',
              JObj [(''__proto__'', JObj [(''type'', JStr ''string'')]),
                    (''description'', JObj [(''type'', JStr ''string'')])]),
           (''required'', JArr [JStr ''description''])]"

text \<open>
  What the specification calls an invalid or property-less input schema: anything but an
  object, an object whose \<^verbatim>\<open>type\<close> is not the string \<^verbatim>\<open>object\<close>, or one without a
  \<^verbatim>\<open>properties\<close> value.
\<close>

definition spec_invalid_or_propertyless :: "jsval \<Rightarrow> bool" where
  "spec_invalid_or_propertyless s =
     (case s of
        JObj fs \<Rightarrow>
          map_of fs ''type'' \<noteq> Some (JStr ''object'')
          \<or> (case map_of fs ''properties'' of
                None \<Rightarrow> True
              | Some p \<Rightarrow> p \<in> {JUndefined, JNull, JBool False, JNum 0, JStr []})
      | _ \<Rightarrow> True)"


text \<open>
  The validator the reducer stores for one property, and whether a property schema
  declares one of the four types the \<^verbatim>\<open>switch\<close> knows.
\<close>

definition property_validator :: "jsval \<Rightarrow> string \<Rightarrow> jsval \<Rightarrow> zodType" where
  "property_validator schema key propSchema =
     (let ty = (case get_prop_opt propSchema ''type'' of Inr v \<Rightarrow> v | Inl e \<Rightarrow> JUndefined);
          req = (case isRequired schema key of Inr b \<Rightarrow> b | Inl e \<Rightarrow> False);
          stored = (if req then basic_type ty else ZodOptional (basic_type ty));
          d = (case get_prop_opt propSchema ''description'' of Inr v \<Rightarrow> v | Inl e \<Rightarrow> JUndefined)
      in if truthy d then ZodDescribed stored d else stored)"

definition declares_basic_type :: "jsval \<Rightarrow> bool" where
  "declares_basic_type propSchema =
     (get_prop_opt propSchema ''type''
        \<in> set (map (\<lambda>s. Inr (JStr s)) [''string'', ''number'', ''boolean'', ''integer'']))"

text \<open>A schema that requires a property of a type the \<^verbatim>\<open>switch\<close> does not know.\<close>

definition schema_array :: jsval where
  "schema_array =
     JObj [(''type'', JStr ''object''),
           (''properties'', JObj [(''a'', JObj [(''type'', JStr ''array'')])]),
           (''required'', JArr [JStr ''a''])]"

text \<open>The own entries of the accumulator after the reduction when no entry is named
  \<^verbatim>\<open>__proto__\<close>.\<close>

fun stored_all :: "jsval \<Rightarrow> (string \<times> zodType) list \<Rightarrow> (string \<times> jsval) list \<Rightarrow> (string \<times> zodType) list" where
  "stored_all s own [] = own"
| "stored_all s own ((k, p) # entries) = stored_all s (set_key own k (property_validator s k p)) entries"

text \<open>
  Schemas that show where a key of the \<^verbatim>\<open>required\<close> array and a mandatory property part:
  an optional property named like a method every object inherits, and a required property
  named \<^verbatim>\<open>__proto__\<close>.
\<close>

definition schema_toString :: jsval where
  "schema_toString =
     JObj [(''type'', JStr ''object''),
           (''properties'', JObj [(''toString'', JObj [(''type'', JStr ''string'')])])]"

definition schema_proto_required :: jsval where
  "schema_proto_required =
     JObj [(''type'', JStr ''object''),
           (''properties'', JObj [(''__proto__'', JObj [(''type'', JStr ''string'')])]),
           (''required'', JArr [JStr ''__proto__''])]"

section \<open>Invocation of a tool\<close>

lemma text_parts_filter:
  "map part_text (filter (\<lambda>part. part_type part = ''text'') content) = spec_text_parts content"
  unfolding spec_text_parts_def
proof (induction content)
  case Nil
  show ?case by simp
next
  case (Cons p ps)
  then show ?case by (cases p) simp_all
qed

text \<open>
  C3: when the \<^verbatim>\<open>tools/call\<close> request of an invocation fails, the invocation does not
  throw: it returns, as the tool's output, the string \<^verbatim>\<open>Error executing tool\<close>, the name of
  the tool, a colon and the message of the failure.
\<close>

theorem invocation_failure_is_output:
  fixes toolName :: string
  assumes "request \<lparr>request_method = ''tools/call'', params_name = toolName, params_arguments = input\<rparr>
             = Inl error"
  shows "MCPToolSSE_func request toolName input
           = Inr (''Error executing tool '' @ toolName @ '': '' @ error_text error)"
  using assms by (simp add: MCPToolSSE_func_def try_catch_def andThen_def)

theorem invocation_failure_is_output_witness:
  "refusing \<lparr>request_method = ''tools/call'', params_name = ''send_mail'', params_arguments = JObj []\<rparr>
     = Inl (ErrorObj ''fetch failed'')
   \<and> MCPToolSSE_func refusing ''send_mail'' (JObj [])
     = Inr ''Error executing tool send_mail: fetch failed''"
proof -
  have h: "refusing \<lparr>request_method = ''tools/call'', params_name = ''send_mail'', params_arguments = JObj []\<rparr>
     = Inl (ErrorObj ''fetch failed'')"
    by (simp add: refusing_def)
  show ?thesis
    using h invocation_failure_is_output
              [of refusing "''send_mail''" "JObj []" "ErrorObj ''fetch failed''"]
    by simp
qed

text \<open>
  C6: a successful invocation returns the texts of the text-typed parts of the response,
  in order and joined by newlines, the other parts dropped; when that string is empty it
  returns the placeholder \<^verbatim>\<open>[No text content returned]\<close>.
\<close>

theorem invocation_returns_text_parts:
  fixes toolName :: string
  assumes "request \<lparr>request_method = ''tools/call'', params_name = toolName, params_arguments = input\<rparr>
             = Inr content"
  shows "MCPToolSSE_func request toolName input
           = Inr (if join newline (spec_text_parts content) = []
                  then ''[No text content returned]''
                  else join newline (spec_text_parts content))"
  using assms
  by (simp add: MCPToolSSE_func_def try_catch_def andThen_def text_parts_filter Let_def)

theorem invocation_returns_text_parts_witness:
  "answering \<lparr>request_method = ''tools/call'', params_name = ''t'', params_arguments = JObj []\<rparr>
     = Inr [TextContent ''done'', ImageContent ''aGk='' ''image/png'', TextContent ''ok'']
   \<and> MCPToolSSE_func answering ''t'' (JObj []) = Inr (''done'' @ [CHR 0x0A] @ ''ok'')"
proof -
  have h: "answering \<lparr>request_method = ''tools/call'', params_name = ''t'', params_arguments = JObj []\<rparr>
     = Inr [TextContent ''done'', ImageContent ''aGk='' ''image/png'', TextContent ''ok'']"
    by (simp add: answering_def)
  show ?thesis
    using h invocation_returns_text_parts [of answering "''t''" "JObj []"]
    by (simp add: spec_text_parts_def newline_def)
qed

section \<open>The toolkit before a successful initialize\<close>

lemma initialize_failure_keeps_cache_empty:
  assumes "initialize w tk = (Inl e, tk1)"
  shows "rawTools tk1 = None"
  using assms
  by (auto simp: initialize_def Let_def split: if_splits option.splits sum.splits)

lemma initialize_all_failures:
  assumes "initialize_all ws tk = (rs, tk1)" and "rawTools tk = None" and "\<forall>r \<in> set rs. isl r"
  shows "rawTools tk1 = None"
  using assms
proof (induction ws arbitrary: tk rs tk1)
  case Nil
  then show ?case by simp
next
  case (Cons w ws)
  obtain r tk2 where step: "initialize w tk = (r, tk2)" by (cases "initialize w tk")
  obtain rs2 tk3 where rest: "initialize_all ws tk2 = (rs2, tk3)" by (cases "initialize_all ws tk2")
  from Cons.prems(1) step rest have eq: "rs = r # rs2" "tk1 = tk3" by simp_all
  with Cons.prems(3) have "isl r" and all: "\<forall>r \<in> set rs2. isl r" by simp_all
  then obtain e where "r = Inl e" by (cases r) simp_all
  with step have "rawTools tk2 = None" by (simp add: initialize_failure_keeps_cache_empty)
  with Cons.IH [OF rest _ all] have "rawTools tk3 = None" by simp
  with eq show ?case by simp
qed

text \<open>
  C8: on an instance made by the constructor on which \<^verbatim>\<open>initialize()\<close> was called any
  number of times without one call succeeding, \<^verbatim>\<open>get_tools()\<close> throws the error
  \<^verbatim>\<open>Toolkit not initialized. Call initialize() first.\<close>
\<close>

theorem get_tools_before_initialize:
  assumes "SSEMCPToolkit w0 url = Inr tk0"
    and "initialize_all ws tk0 = (rs, tk)"
    and "\<forall>r \<in> set rs. isl r"
  shows "get_tools readonly tk = Inl (ErrorObj ''Toolkit not initialized. Call initialize() first.'')"
proof -
  from assms(1) have "rawTools tk0 = None"
    by (auto simp: SSEMCPToolkit_def split: if_splits)
  with assms(2,3) have "rawTools tk = None" using initialize_all_failures by blast
  then show ?thesis by (simp add: get_tools_def)
qed

lemma sseUrl_us1: "sseUrl us1 = ''https://us1.make.com/mcp/api/v1/u/secret/sse''"
  by (simp add: sseUrl_def us1_def)

lemma construct_fresh: "SSEMCPToolkit unreachable (sseUrl us1) = Inr fresh_toolkit"
  by (simp add: SSEMCPToolkit_def sseUrl_us1 unreachable_def fresh_toolkit_def)

lemma first_failure:
  "initialize unreachable fresh_toolkit =
     (Inl (ErrorObj (''Failed to connect or list tools from MCP server at '' @ sseUrl us1
                       @ '': connect ECONNREFUSED'')),
      fresh_toolkit\<lparr>transport := None\<rparr>)"
  by (simp add: initialize_def fresh_toolkit_def connect_and_list_def unreachable_def Let_def)

lemma second_failure:
  "initialize w (fresh_toolkit\<lparr>transport := None\<rparr>) =
     (Inl (ErrorObj ''SSE Transport is not initialized.''),
      fresh_toolkit\<lparr>transport := None, client := Some new_client\<rparr>)"
  by (simp add: initialize_def fresh_toolkit_def Let_def)

lemma two_failures:
  "initialize_all [unreachable, serving []] fresh_toolkit =
     ([Inl (ErrorObj (''Failed to connect or list tools from MCP server at '' @ sseUrl us1
                        @ '': connect ECONNREFUSED'')),
       Inl (ErrorObj ''SSE Transport is not initialized.'')],
      fresh_toolkit\<lparr>transport := None, client := Some new_client\<rparr>)"
  by (simp add: first_failure second_failure)

theorem get_tools_before_initialize_witness:
  "SSEMCPToolkit unreachable (sseUrl us1) = Inr fresh_toolkit
   \<and> fst (initialize_all [unreachable, serving []] fresh_toolkit)
       = [Inl (ErrorObj (''Failed to connect or list tools from MCP server at '' @ sseUrl us1
                          @ '': connect ECONNREFUSED'')),
          Inl (ErrorObj ''SSE Transport is not initialized.'')]
   \<and> get_tools zod3_readonly (snd (initialize_all [unreachable, serving []] fresh_toolkit))
       = Inl (ErrorObj ''Toolkit not initialized. Call initialize() first.'')"
proof -
  have "get_tools zod3_readonly (fresh_toolkit\<lparr>transport := None, client := Some new_client\<rparr>)
       = Inl (ErrorObj ''Toolkit not initialized. Call initialize() first.'')"
    by (rule get_tools_before_initialize [OF construct_fresh two_failures]) simp
  with construct_fresh show ?thesis
    unfolding two_failures by simp
qed

section \<open>The discovery callback and the materializer\<close>

text \<open>
  C4: for a credential record without the zone field or without the token field, the
  discovery callback returns, without throwing, the single option named \<^verbatim>\<open>NO_CRED\<close>,
  and the materializer throws.
\<close>

theorem missing_credentials:
  assumes "makeZone c = None \<or> mcpToken c = None"
  shows "listMakeScenarios localeCompare w (Some c)
           = Inr [\<lparr>label = ''Configure Make.com Credentials First'', name = ''NO_CRED'',
                   description = ''Credential details missing.''\<rparr>]
         \<and> init w (Some c) mcpActions
           = Inl (ErrorObj ''Make.com credentials are not configured for this node.'')"
proof -
  from assms have "credentials_missing (Some c)"
    by (auto simp: credentials_missing_def falsy_field_def)
  then show ?thesis by (simp add: listMakeScenarios_def init_def)
qed

theorem missing_credentials_witness:
  "(makeZone \<lparr>makeZone = Some ''eu1.make.com'', mcpToken = None\<rparr> = None
      \<or> mcpToken \<lparr>makeZone = Some ''eu1.make.com'', mcpToken = None\<rparr> = None)
   \<and> listMakeScenarios codeCompare (serving [descriptor ''x''])
        (Some \<lparr>makeZone = Some ''eu1.make.com'', mcpToken = None\<rparr>)
       = Inr [\<lparr>label = ''Configure Make.com Credentials First'', name = ''NO_CRED'',
               description = ''Credential details missing.''\<rparr>]
   \<and> init (serving [descriptor ''x'']) (Some \<lparr>makeZone = Some ''eu1.make.com'', mcpToken = None\<rparr>)
        (JArr [JStr ''x''])
       = Inl (ErrorObj ''Make.com credentials are not configured for this node.'')"
  using missing_credentials [of "\<lparr>makeZone = Some ''eu1.make.com'', mcpToken = None\<rparr>"
          codeCompare "serving [descriptor ''x'']" "JArr [JStr ''x'']"]
  by simp

lemma sseUrl_nonempty: "\<not> credentials_missing cd \<Longrightarrow> sseUrl cd \<noteq> []"
  by (cases cd) (simp_all add: credentials_missing_def sseUrl_def)

lemma fresh_session_success:
  assumes "url \<noteq> []" and "url_parses w url" and "connect w url = None"
    and "list_tools w = Inr catalog"
    and "map_all (make_tool (readonly_accessor w) (new_client\<lparr>connected := Some url\<rparr>)) catalog
           = Inr ts"
  shows "fresh_session w url =
           Inr \<lparr>tools = ts, rawTools = Some catalog,
                client = Some (new_client\<lparr>connected := Some url\<rparr>),
                transport = Some \<lparr>transport_url = url\<rparr>, sseParams = url\<rparr>"
  using assms
  by (simp add: fresh_session_def SSEMCPToolkit_def andThen_def initialize_def
      connect_and_list_def get_tools_def Let_def)

text \<open>
  C10: with credentials present and a session that connects, a catalog of zero tools makes
  the discovery callback return not the empty list but the single option named
  \<^verbatim>\<open>NO_SCENARIOS\<close> with the label \<^verbatim>\<open>No Scenarios Found\<close>.
\<close>

theorem empty_catalog_sentinel:
  assumes "\<not> credentials_missing cd"
    and "url_parses w (sseUrl cd)"
    and "connect w (sseUrl cd) = None"
    and "list_tools w = Inr []"
  shows "listMakeScenarios localeCompare w cd
           = Inr [\<lparr>label = ''No Scenarios Found'', name = ''NO_SCENARIOS'',
                   description = ''Check Make.com MCP server or token.''\<rparr>]"
proof -
  have "fresh_session w (sseUrl cd) =
          Inr \<lparr>tools = [], rawTools = Some [],
               client = Some (new_client\<lparr>connected := Some (sseUrl cd)\<rparr>),
               transport = Some \<lparr>transport_url = sseUrl cd\<rparr>, sseParams = sseUrl cd\<rparr>"
    using assms by (intro fresh_session_success sseUrl_nonempty) simp_all
  with assms(1) show ?thesis
    by (simp add: listMakeScenarios_def try_catch_def andThen_def)
qed

theorem empty_catalog_sentinel_witness:
  "\<not> credentials_missing us1
   \<and> url_parses (serving []) (sseUrl us1)
   \<and> connect (serving []) (sseUrl us1) = None
   \<and> list_tools (serving []) = Inr []
   \<and> listMakeScenarios codeCompare (serving []) us1
       = Inr [\<lparr>label = ''No Scenarios Found'', name = ''NO_SCENARIOS'',
               description = ''Check Make.com MCP server or token.''\<rparr>]"
proof -
  have h: "\<not> credentials_missing us1" "url_parses (serving []) (sseUrl us1)"
    "connect (serving []) (sseUrl us1) = None" "list_tools (serving []) = Inr []"
    by (simp_all add: credentials_missing_def falsy_field_def us1_def serving_def)
  show ?thesis
    using h empty_catalog_sentinel [of us1 "serving []" codeCompare] by simp
qed



section \<open>A failed initialize\<close>

text \<open>
  C1 (as amended): when \<^verbatim>\<open>initialize()\<close> fails on an instance that has its transport, the
  client, the transport and the raw-tool cache are null and the tools list is empty
  afterwards; every later \<^verbatim>\<open>initialize()\<close> on that instance, whatever the server does
  then, fails with \<^verbatim>\<open>SSE Transport is not initialized.\<close> and leaves a new client
  assigned: the transport is made by the constructor only.
\<close>

theorem initialize_failure_resets:
  assumes "initialize w tk = (Inl e, tk1)" and "transport tk \<noteq> None"
  shows "client tk1 = None \<and> transport tk1 = None \<and> rawTools tk1 = None \<and> tools tk1 = []
         \<and> initialize w2 tk1
             = (Inl (ErrorObj ''SSE Transport is not initialized.''), tk1\<lparr>client := Some new_client\<rparr>)"
proof -
  from assms obtain tr where tr: "transport tk = Some tr" by auto
  from assms(1) have raw: "rawTools tk = None"
    by (auto simp: initialize_def split: if_splits)
  from assms(1) tr raw have tk1: "tk1 = tk\<lparr>client := None, transport := None, rawTools := None, tools := []\<rparr>"
    by (auto simp: initialize_def Let_def split: sum.splits)
  then show ?thesis by (simp add: initialize_def Let_def)
qed

theorem initialize_failure_resets_witness:
  "initialize unreachable fresh_toolkit
     = (Inl (ErrorObj (''Failed to connect or list tools from MCP server at '' @ sseUrl us1
                        @ '': connect ECONNREFUSED'')),
        fresh_toolkit\<lparr>transport := None\<rparr>)
   \<and> transport fresh_toolkit \<noteq> None
   \<and> client (fresh_toolkit\<lparr>transport := None\<rparr>) = None
   \<and> transport (fresh_toolkit\<lparr>transport := None\<rparr>) = None
   \<and> rawTools (fresh_toolkit\<lparr>transport := None\<rparr>) = None
   \<and> tools (fresh_toolkit\<lparr>transport := None\<rparr>) = []
   \<and> initialize (serving []) (fresh_toolkit\<lparr>transport := None\<rparr>)
       = (Inl (ErrorObj ''SSE Transport is not initialized.''),
          fresh_toolkit\<lparr>transport := None, client := Some new_client\<rparr>)"
proof -
  have t: "transport fresh_toolkit \<noteq> None" by (simp add: fresh_toolkit_def)
  show ?thesis
    using first_failure t initialize_failure_resets [OF first_failure t, of "serving []"]
    by simp
qed

text \<open>
  C1 as stated fails: after the failure against an unreachable server, the next call
  against a server that a fresh instance reaches does not connect, and that second
  failure leaves the client set.
\<close>

lemma fresh_would_succeed: "fst (initialize (serving []) fresh_toolkit) = Inr ()"
  by (simp add: initialize_def fresh_toolkit_def connect_and_list_def serving_def get_tools_def
      andThen_def Let_def)

theorem initialize_retry_counterexample:
  "fst (initialize unreachable fresh_toolkit)
     = Inl (ErrorObj (''Failed to connect or list tools from MCP server at '' @ sseUrl us1
                        @ '': connect ECONNREFUSED''))
   \<and> fst (initialize (serving []) fresh_toolkit) = Inr ()
   \<and> fst (initialize (serving []) (snd (initialize unreachable fresh_toolkit)))
       = Inl (ErrorObj ''SSE Transport is not initialized.'')
   \<and> client (snd (initialize (serving []) (snd (initialize unreachable fresh_toolkit))))
       = Some new_client"
  by (simp add: first_failure second_failure fresh_would_succeed)

section \<open>Discovery of a catalog\<close>

subsection \<open>Sorting with a comparator\<close>

lemma insert_sorted_mset: "mset (insert_sorted cmp x xs) = add_mset x (mset xs)"
  by (induction xs) simp_all

lemma array_sort_mset: "mset (array_sort cmp xs) = mset xs"
  unfolding array_sort_def by (induction xs) (simp_all add: insert_sorted_mset)

lemma insert_sorted_set: "set (insert_sorted cmp x xs) = insert x (set xs)"
  using insert_sorted_mset [of cmp x xs] by (metis set_mset_add_mset_insert set_mset_mset)

lemma insert_sorted_keeps_order:
  assumes total: "\<And>a b. cmp a b \<le> 0 \<or> cmp b a \<le> 0"
    and trans: "\<And>a b c. cmp a b \<le> 0 \<Longrightarrow> cmp b c \<le> 0 \<Longrightarrow> cmp a c \<le> 0"
    and "sorted_wrt (\<lambda>a b. cmp a b \<le> 0) xs"
  shows "sorted_wrt (\<lambda>a b. cmp a b \<le> (0::int)) (insert_sorted cmp x xs)"
  using assms(3)
proof (induction xs)
  case Nil
  show ?case by simp
next
  case (Cons y ys)
  show ?case
  proof (cases "cmp x y \<le> 0")
    case True
    moreover have "\<forall>z \<in> set ys. cmp x z \<le> 0"
      using Cons.prems True trans by auto
    ultimately show ?thesis using Cons.prems by simp
  next
    case False
    with total have "cmp y x \<le> 0" by blast
    with Cons False show ?thesis by (simp add: insert_sorted_set)
  qed
qed

lemma array_sort_sorted:
  assumes total: "\<And>a b. cmp a b \<le> 0 \<or> cmp b a \<le> 0"
    and trans: "\<And>a b c. cmp a b \<le> 0 \<Longrightarrow> cmp b c \<le> 0 \<Longrightarrow> cmp a c \<le> 0"
  shows "sorted_wrt (\<lambda>a b. cmp a b \<le> (0::int)) (array_sort cmp xs)"
proof (induction xs)
  case Nil
  show ?case by (simp add: array_sort_def)
next
  case (Cons x xs)
  have "array_sort cmp (x # xs) = insert_sorted cmp x (array_sort cmp xs)"
    by (simp add: array_sort_def)
  with Cons insert_sorted_keeps_order [of cmp, OF total trans] show ?case by simp
qed

subsection \<open>What a session holds\<close>

lemma map_all_pointwise:
  "map_all f xs = Inr ys \<Longrightarrow> list_all2 (\<lambda>x y. f x = Inr y) xs ys"
proof (induction xs arbitrary: ys)
  case Nil
  then show ?case by simp
next
  case (Cons x xs)
  then show ?case by (auto split: sum.splits)
qed

lemma fresh_session_holds:
  assumes "fresh_session w url = Inr tk"
  shows "\<exists>catalog. list_tools w = Inr catalog
           \<and> map_all (make_tool (readonly_accessor w) (new_client\<lparr>connected := Some url\<rparr>)) catalog
               = Inr (tools tk)"
  using assms
  by (auto simp: fresh_session_def SSEMCPToolkit_def andThen_def initialize_def
      connect_and_list_def get_tools_def Let_def
      split: if_splits sum.splits option.splits prod.splits)

lemma make_tool_option:
  assumes "make_tool readonly c d = Inr t"
  shows "scenario_of t = discovered_option d"
  using assms
  by (auto simp: make_tool_def andThen_def scenario_of_def discovered_option_def
      split: sum.splits option.splits)

lemma made_tools_options:
  assumes "list_all2 (\<lambda>d t. make_tool readonly c d = Inr t) catalog ts"
  shows "map scenario_of ts = map discovered_option catalog"
  using assms by (induction rule: list_all2_induct) (simp_all add: make_tool_option)

lemma listMakeScenarios_success:
  assumes "\<not> credentials_missing cd" and "fresh_session w (sseUrl cd) = Inr tk" and "tools tk \<noteq> []"
  shows "listMakeScenarios lc w cd
          = Inr (array_sort (\<lambda>a b. lc (label a) (label b)) (map scenario_of (tools tk)))"
  unfolding listMakeScenarios_def try_catch_def andThen_def
  by (simp only: assms if_False sum.case)

text \<open>
  C2 (as amended): with credentials present, a comparator that is a total preorder, and a
  session that fetched a catalog of N tools, N at least one, the discovery callback
  returns N options, the name and description of each discovered tool once, sorted
  ascending by name under the comparator. (Unique names are not needed for this.)
\<close>

theorem discovery_lists_catalog:
  assumes total: "\<And>a b. localeCompare a b \<le> 0 \<or> localeCompare b a \<le> 0"
    and trans: "\<And>a b c. localeCompare a b \<le> 0 \<Longrightarrow> localeCompare b c \<le> 0
                  \<Longrightarrow> localeCompare a c \<le> 0"
    and creds: "\<not> credentials_missing cd"
    and fetched: "fresh_session w (sseUrl cd) = Inr tk"
    and catalog: "list_tools w = Inr catalog"
    and nonempty: "catalog \<noteq> []"
  shows "\<exists>opts. listMakeScenarios localeCompare w cd = Inr opts
           \<and> length opts = length catalog
           \<and> mset opts = mset (map discovered_option catalog)
           \<and> sorted_wrt (\<lambda>a b. localeCompare (name a) (name b) \<le> 0) opts"
proof -
  let ?cmp = "\<lambda>a b. localeCompare (label a) (label b)"
  let ?opts = "array_sort ?cmp (map scenario_of (tools tk))"
  from fresh_session_holds [OF fetched] catalog
  have made: "list_all2 (\<lambda>d t. make_tool (readonly_accessor w)
                                  (new_client\<lparr>connected := Some (sseUrl cd)\<rparr>) d = Inr t)
                catalog (tools tk)"
    by (auto intro: map_all_pointwise)
  then have same: "map scenario_of (tools tk) = map discovered_option catalog"
    by (rule made_tools_options)
  from made nonempty have "tools tk \<noteq> []" by auto
  with creds fetched have result: "listMakeScenarios localeCompare w cd = Inr ?opts"
    by (rule listMakeScenarios_success)
  have perm: "mset ?opts = mset (map discovered_option catalog)"
    by (simp add: array_sort_mset same)
  have "length ?opts = size (mset ?opts)" by (simp only: size_mset)
  also have "\<dots> = length catalog" by (simp only: perm size_mset length_map)
  finally have len: "length ?opts = length catalog" .
  have "sorted_wrt (\<lambda>a b. ?cmp a b \<le> 0) ?opts"
  proof (rule array_sort_sorted)
    fix a b :: nodeOption
    show "?cmp a b \<le> 0 \<or> ?cmp b a \<le> 0" by (rule total)
  next
    fix a b c :: nodeOption
    assume "?cmp a b \<le> 0" and "?cmp b c \<le> 0"
    then show "?cmp a c \<le> 0" by (rule trans)
  qed
  then have by_label: "sorted_wrt (\<lambda>a b. localeCompare a b \<le> 0) (map label ?opts)"
    by (simp only: sorted_wrt_map)
  have lab: "label o1 = name o1" if "o1 \<in> set ?opts" for o1
  proof -
    from that have "o1 \<in># mset ?opts" by simp
    then have "o1 \<in> set (map discovered_option catalog)" by (simp only: perm set_mset_mset)
    then obtain d where "o1 = discovered_option d" by auto
    then show ?thesis by (simp add: discovered_option_def)
  qed
  have names: "map label ?opts = map name ?opts" by (rule map_cong [OF refl lab])
  from by_label have "sorted_wrt (\<lambda>a b. localeCompare a b \<le> 0) (map name ?opts)"
    by (simp only: names)
  then have "sorted_wrt (\<lambda>a b. localeCompare (name a) (name b) \<le> 0) ?opts"
    by (simp only: sorted_wrt_map)
  with result len perm show ?thesis by (intro exI [of _ ?opts] conjI)
qed


lemma codeCompare_total: "codeCompare a b \<le> 0 \<or> codeCompare b a \<le> 0"
  by (induction a b rule: codeCompare.induct) auto

lemma codeCompare_trans:
  "codeCompare a b \<le> 0 \<Longrightarrow> codeCompare b c \<le> 0 \<Longrightarrow> codeCompare a c \<le> 0"
proof (induction a arbitrary: b c)
  case Nil
  then show ?case by (cases c) simp_all
next
  case (Cons x xs)
  from Cons.prems(1) obtain y ys where b: "b = y # ys" by (cases b) simp_all
  from Cons.prems(2) b obtain z zs where c: "c = z # zs" by (cases c) simp_all
  let ?x = "of_char x :: nat" and ?y = "of_char y :: nat" and ?z = "of_char z :: nat"
  from Cons.prems(1) b have xy: "?x < ?y \<or> (?x = ?y \<and> codeCompare xs ys \<le> 0)"
    by (simp split: if_splits)
  from Cons.prems(2) b c have yz: "?y < ?z \<or> (?y = ?z \<and> codeCompare ys zs \<le> 0)"
    by (simp split: if_splits)
  from xy yz consider "?x < ?z" | "?x = ?z" "codeCompare xs ys \<le> 0" "codeCompare ys zs \<le> 0"
    by linarith
  then show ?case
  proof cases
    case 1
    with c show ?thesis by simp
  next
    case 2
    from 2(2,3) have "codeCompare xs zs \<le> 0" by (rule Cons.IH)
    with 2(1) c show ?thesis by simp
  qed
qed

lemma schema_ab_model:
  "createSchemaModel readonly schema_ab
     = Inr (z_object [(''a'', ZodString), (''b'', ZodOptional ZodNumber)])"
  by (simp add: createSchemaModel_def invalid_or_empty_def schema_ab_def convert_properties_def
      andThen_def try_catch_def reducer_def isRequired_def basic_type_def assign_def empty_acc_def
      Let_def)

lemma two_tools_session:
  "fresh_session (serving two_tools) (sseUrl us1) =
     Inr \<lparr>tools =
            [\<lparr>tool_client = new_client\<lparr>connected := Some (sseUrl us1)\<rparr>, tool_name = ''zeta'',
              tool_description = ''Invoke zeta via MCP'',
              argsSchema = z_object [(''a'', ZodString), (''b'', ZodOptional ZodNumber)]\<rparr>,
             \<lparr>tool_client = new_client\<lparr>connected := Some (sseUrl us1)\<rparr>, tool_name = ''alpha'',
              tool_description = ''Invoke alpha via MCP'',
              argsSchema = z_object [(''a'', ZodString), (''b'', ZodOptional ZodNumber)]\<rparr>],
          rawTools = Some two_tools,
          client = Some (new_client\<lparr>connected := Some (sseUrl us1)\<rparr>),
          transport = Some \<lparr>transport_url = sseUrl us1\<rparr>, sseParams = sseUrl us1\<rparr>"
  by (rule fresh_session_success)
     (simp_all add: sseUrl_us1 serving_def two_tools_def make_tool_def descriptor_def
        schema_ab_model andThen_def)

theorem discovery_lists_catalog_witness:
  "\<exists>opts. listMakeScenarios codeCompare (serving two_tools) us1 = Inr opts
      \<and> length opts = length two_tools
      \<and> mset opts = mset (map discovered_option two_tools)
      \<and> sorted_wrt (\<lambda>a b. codeCompare (name a) (name b) \<le> 0) opts"
proof (rule discovery_lists_catalog [OF codeCompare_total codeCompare_trans _ two_tools_session])
  show "\<not> credentials_missing us1"
    by (simp add: credentials_missing_def falsy_field_def us1_def)
  show "list_tools (serving two_tools) = Inr two_tools" by (simp add: serving_def)
  show "two_tools \<noteq> []" by (simp add: two_tools_def)
qed

text \<open>
  C2 as stated fails for N = 0: the callback returns one option for the empty catalog.
\<close>

theorem discovery_empty_catalog_counterexample:
  "list_tools (serving []) = Inr []
   \<and> map name (projr (listMakeScenarios codeCompare (serving []) us1)) = [''NO_SCENARIOS'']"
proof -
  have "\<not> credentials_missing us1"
    by (simp add: credentials_missing_def falsy_field_def us1_def)
  moreover have "fresh_session (serving []) (sseUrl us1) =
          Inr \<lparr>tools = [], rawTools = Some [],
               client = Some (new_client\<lparr>connected := Some (sseUrl us1)\<rparr>),
               transport = Some \<lparr>transport_url = sseUrl us1\<rparr>, sseParams = sseUrl us1\<rparr>"
    by (rule fresh_session_success) (simp_all add: sseUrl_us1 serving_def)
  ultimately show ?thesis
    by (simp add: listMakeScenarios_def try_catch_def andThen_def serving_def)
qed

section \<open>Materialized tools\<close>

text \<open>
  C9: the tools the materializer returns are a subsequence of the tools that the session
  of that call made, one from each descriptor of the catalog it fetched, with the
  callback of \<^verbatim>\<open>get_tools\<close> (name copied, description copied or defaulted, validator
  from the input schema); when no session is opened nothing is returned.
\<close>

theorem materialized_tools_from_catalog:
  assumes "init w cd mcpActions = Inr ts"
  shows "ts = []
         \<or> (\<exists>catalog made.
               list_tools w = Inr catalog
               \<and> list_all2 (\<lambda>d t. make_tool (readonly_accessor w) (new_client\<lparr>connected := Some (sseUrl cd)\<rparr>) d = Inr t)
                     catalog made
               \<and> subseq ts made)"
proof (cases "ts = []")
  case True
  then show ?thesis by simp
next
  case False
  from assms False obtain selected tk where
    session: "fresh_session w (sseUrl cd) = Inr tk" and
    ts: "ts = filter (\<lambda>t. JStr (tool_name t) \<in> set selected) (tools tk)"
    by (auto simp: init_def try_catch_def andThen_def Let_def
        split: if_splits jsval.splits sum.splits)
  from fresh_session_holds [OF session] obtain catalog where
    catalog: "list_tools w = Inr catalog" and
    made: "map_all (make_tool (readonly_accessor w) (new_client\<lparr>connected := Some (sseUrl cd)\<rparr>)) catalog = Inr (tools tk)"
    by blast
  from made have "list_all2 (\<lambda>d t. make_tool (readonly_accessor w) (new_client\<lparr>connected := Some (sseUrl cd)\<rparr>) d = Inr t)
                    catalog (tools tk)"
    by (rule map_all_pointwise)
  moreover from ts have "subseq ts (tools tk)" by simp
  ultimately show ?thesis using catalog by blast
qed

theorem materialized_tools_from_catalog_witness:
  "init (serving two_tools) us1 (JArr [JStr ''alpha'', JStr ''omega''])
     = Inr [\<lparr>tool_client = new_client\<lparr>connected := Some (sseUrl us1)\<rparr>, tool_name = ''alpha'',
              tool_description = ''Invoke alpha via MCP'',
              argsSchema = z_object [(''a'', ZodString), (''b'', ZodOptional ZodNumber)]\<rparr>]
   \<and> (\<exists>catalog made.
         list_tools (serving two_tools) = Inr catalog
         \<and> list_all2 (\<lambda>d t. make_tool (readonly_accessor (serving two_tools))
                          (new_client\<lparr>connected := Some (sseUrl us1)\<rparr>) d = Inr t)
               catalog made
         \<and> subseq [\<lparr>tool_client = new_client\<lparr>connected := Some (sseUrl us1)\<rparr>, tool_name = ''alpha'',
              tool_description = ''Invoke alpha via MCP'',
              argsSchema = z_object [(''a'', ZodString), (''b'', ZodOptional ZodNumber)]\<rparr>] made)"
proof -
  have "\<not> credentials_missing us1"
    by (simp add: credentials_missing_def falsy_field_def us1_def)
  then have run: "init (serving two_tools) us1 (JArr [JStr ''alpha'', JStr ''omega''])
     = Inr [\<lparr>tool_client = new_client\<lparr>connected := Some (sseUrl us1)\<rparr>, tool_name = ''alpha'',
              tool_description = ''Invoke alpha via MCP'',
              argsSchema = z_object [(''a'', ZodString), (''b'', ZodOptional ZodNumber)]\<rparr>]"
    by (simp add: init_def try_catch_def andThen_def two_tools_session)
  from materialized_tools_from_catalog [OF run] run show ?thesis by simp
qed

section \<open>Conversion of an input schema\<close>

lemma falsy_values: "\<not> truthy p \<longleftrightarrow> p \<in> {JUndefined, JNull, JBool False, JNum 0, JStr []}"
  by (cases p) auto

lemma guard_is_spec: "invalid_or_empty s = Inr (spec_invalid_or_propertyless s)"
proof (cases s)
  case (JObj fs)
  show ?thesis
  proof (cases "map_of fs ''type'' = Some (JStr ''object'')")
    case True
    with JObj show ?thesis
      by (cases "map_of fs ''properties''")
         (simp_all add: invalid_or_empty_def spec_invalid_or_propertyless_def andThen_def
            falsy_values)
  next
    case False
    with JObj show ?thesis
      by (cases "map_of fs ''type''")
         (simp_all add: invalid_or_empty_def spec_invalid_or_propertyless_def andThen_def)
  qed
qed (simp_all add: invalid_or_empty_def spec_invalid_or_propertyless_def andThen_def)







subsection \<open>The reducer, entry by entry\<close>

lemma get_prop_opt_returns: "\<exists>v. get_prop_opt p k = Inr v"
  by (cases p) simp_all

lemma isRequired_object:
  "isRequired (JObj fs) k
     = Inr (case map_of fs ''required'' of Some (JArr xs) \<Rightarrow> JStr k \<in> set xs | _ \<Rightarrow> False)"
  by (simp add: isRequired_def andThen_def split: option.splits jsval.splits)



subsection \<open>The accumulator of the reduction\<close>

lemma set_key_lookup: "map_of (set_key acc key v) k = (if k = key then Some v else map_of acc k)"
  by (induction acc) auto

lemma set_key_keys: "fst ` set (set_key acc key v) = insert key (fst ` set acc)"
proof (induction acc)
  case Nil
  show ?case by simp
next
  case (Cons kv acc)
  obtain k w where "kv = (k, w)" by (cases kv)
  with Cons show ?case by (cases "k = key") auto
qed

lemma set_key_distinct: "distinct (map fst acc) \<Longrightarrow> distinct (map fst (set_key acc key v))"
proof (induction acc)
  case Nil
  show ?case by simp
next
  case (Cons kv acc)
  obtain k w where kv: "kv = (k, w)" by (cases kv)
  with Cons show ?case by (auto simp: set_key_keys)
qed

lemma set_key_twice: "set_key (set_key acc key v) key v' = set_key acc key v'"
  by (induction acc) auto

lemma assign_plain:
  assumes "key \<noteq> ''__proto__''" and "acc_proto acc = None"
  shows "assign readonly acc key v = Inr (acc\<lparr>acc_own := set_key (acc_own acc) key v\<rparr>)"
  using assms by (simp add: assign_def)

subsection \<open>The reduction when no entry is named \<^verbatim>\<open>__proto__\<close>\<close>

lemma reducer_plain:
  assumes "k \<noteq> ''__proto__''" and "acc_proto acc = None"
  shows "reducer readonly (JObj fs) acc (k, p)
           = Inr (acc\<lparr>acc_own := set_key (acc_own acc) k (property_validator (JObj fs) k p)\<rparr>)"
proof -
  obtain ty where ty: "get_prop_opt p ''type'' = Inr ty"
    using get_prop_opt_returns by blast
  obtain d where d: "get_prop_opt p ''description'' = Inr d"
    using get_prop_opt_returns by blast
  obtain req where req: "isRequired (JObj fs) k = Inr req"
    using isRequired_object by blast
  show ?thesis
    using assms
    by (simp add: reducer_def property_validator_def ty d req andThen_def Let_def assign_plain
        set_key_twice)
qed

lemma reduce_plain:
  assumes "''__proto__'' \<notin> fst ` set entries" and "acc_proto acc = None"
  shows "reduce (reducer readonly (JObj fs)) acc entries
           = Inr (acc\<lparr>acc_own := stored_all (JObj fs) (acc_own acc) entries\<rparr>)"
  using assms
proof (induction entries arbitrary: acc)
  case Nil
  show ?case by simp
next
  case (Cons entry entries)
  obtain k p where entry: "entry = (k, p)" by (cases entry)
  with Cons.prems have k: "k \<noteq> ''__proto__''" and rest: "''__proto__'' \<notin> fst ` set entries"
    by auto
  let ?acc = "acc\<lparr>acc_own := set_key (acc_own acc) k (property_validator (JObj fs) k p)\<rparr>"
  from k Cons.prems(2) have step: "reducer readonly (JObj fs) acc (k, p) = Inr ?acc"
    by (rule reducer_plain)
  from Cons.prems(2) have "acc_proto ?acc = None" by simp
  with rest have "reduce (reducer readonly (JObj fs)) ?acc entries
                    = Inr (?acc\<lparr>acc_own := stored_all (JObj fs) (acc_own ?acc) entries\<rparr>)"
    by (rule Cons.IH)
  with step entry show ?case by simp
qed

lemma stored_all_distinct:
  "distinct (map fst acc) \<Longrightarrow> distinct (map fst (stored_all s acc entries))"
proof (induction entries arbitrary: acc)
  case Nil
  then show ?case by simp
next
  case (Cons entry entries)
  obtain k p where "entry = (k, p)" by (cases entry)
  with Cons show ?case by (simp add: set_key_distinct)
qed

lemma stored_all_lookup:
  assumes "distinct (map fst entries)"
  shows "map_of (stored_all s own entries) k =
           (case map_of entries k of
              None \<Rightarrow> map_of own k
            | Some p \<Rightarrow> Some (property_validator s k p))"
  using assms
proof (induction entries arbitrary: own)
  case Nil
  show ?case by simp
next
  case (Cons entry entries)
  obtain k0 p0 where entry: "entry = (k0, p0)" by (cases entry)
  from Cons.prems entry have fresh: "map_of entries k0 = None" and rest: "distinct (map fst entries)"
    by (simp_all add: map_of_eq_None_iff)
  show ?case
  proof (cases "k = k0")
    case True
    with Cons.IH [OF rest] fresh entry show ?thesis by (simp add: set_key_lookup)
  next
    case False
    with Cons.IH [OF rest] entry show ?thesis
      by (simp add: set_key_lookup split: option.splits)
  qed
qed









lemma schema_proto_throws:
  "convert_properties zod3_readonly schema_proto
     = Inl (ErrorObj ''Cannot set property description which has only a getter'')"
  by (simp add: convert_properties_def schema_proto_def andThen_def reducer_def isRequired_def
      basic_type_def assign_def empty_acc_def zod3_readonly_def Let_def)



section \<open>Required properties\<close>

subsection \<open>What an object validator accepts\<close>

lemma accepts_iff:
  "accepts V (JObj kvs) \<longleftrightarrow> (\<forall>(k, t) \<in> set (shape V). zod_accepts t (field kvs k))"
  by (auto simp: accepts_def zod_parse_def list_all_iff)

lemma field_absent:
  assumes "map_of kvs k = None" and "k \<noteq> ''__proto__''" and "k \<notin> set inherited_methods"
  shows "field kvs k = JUndefined"
  using assms by (simp add: field_def)

lemma zod_accepts_some: "\<exists>v. zod_accepts t v"
proof (induction t)
  case ZodString
  have "zod_accepts ZodString (JStr [])" by simp
  then show ?case ..
next
  case ZodNumber
  have "zod_accepts ZodNumber (JNum 0)" by simp
  then show ?case ..
next
  case ZodBoolean
  have "zod_accepts ZodBoolean (JBool True)" by simp
  then show ?case ..
next
  case ZodNumberInt
  have "zod_accepts ZodNumberInt (JNum 0)" by simp
  then show ?case ..
next
  case ZodAny
  show ?case by simp
next
  case (ZodOptional t)
  then show ?case by auto
next
  case (ZodDescribed t d)
  then show ?case by simp
qed

lemma basic_type_cases:
  "basic_type ty \<in> {ZodString, ZodNumber, ZodBoolean, ZodNumberInt, ZodAny}"
  by (simp add: basic_type_def)

lemma basic_rejects_undefined:
  "basic_type ty \<noteq> ZodAny \<Longrightarrow> \<not> zod_accepts (basic_type ty) JUndefined"
  using basic_type_cases [of ty] by auto

lemma declares_basic_type_iff:
  assumes "get_prop_opt p ''type'' = Inr ty"
  shows "declares_basic_type p \<longleftrightarrow> basic_type ty \<noteq> ZodAny"
  using assms by (auto simp: declares_basic_type_def basic_type_def)

lemma property_validator_undefined:
  "zod_accepts (property_validator (JObj fs) k p) JUndefined
     \<longleftrightarrow> \<not> (isRequired (JObj fs) k = Inr True \<and> declares_basic_type p)"
proof -
  obtain ty where ty: "get_prop_opt p ''type'' = Inr ty"
    using get_prop_opt_returns by blast
  obtain req where req: "isRequired (JObj fs) k = Inr req"
    using isRequired_object by blast
  show ?thesis
    using basic_rejects_undefined [of ty] declares_basic_type_iff [OF ty]
    by (cases req) (auto simp: property_validator_def ty req Let_def)
qed

lemma omitting_input:
  assumes "distinct (map fst sh)" and "map_of sh k = Some t" and "zod_accepts t JUndefined"
    and "k \<noteq> ''__proto__''" and "k \<notin> set inherited_methods"
  shows "\<exists>kvs. map_of kvs k = None \<and> accepts (z_object sh) (JObj kvs)"
proof -
  from zod_accepts_some obtain pick where pick: "\<forall>t'. zod_accepts t' (pick t')" by metis
  let ?kvs = "map (\<lambda>(k', t'). (k', pick t')) (filter (\<lambda>(k', t'). k' \<noteq> k) sh)"
  have absent: "map_of ?kvs k = None"
    by (auto simp: map_of_eq_None_iff)
  have "zod_accepts t' (field ?kvs k')" if mem: "(k', t') \<in> set sh" for k' t'
  proof (cases "k' = k")
    case True
    with mem assms(1,2) have "t' = t" by simp
    with assms(3-5) absent True show ?thesis by (simp add: field_absent)
  next
    case False
    have "distinct (map fst ?kvs)"
      using assms(1) by (simp add: distinct_map_filter comp_def case_prod_beta)
    moreover from mem False have "(k', pick t') \<in> set ?kvs" by force
    ultimately have "map_of ?kvs k' = Some (pick t')" by (rule map_of_is_SomeI)
    with pick show ?thesis by (simp add: field_def)
  qed
  then have "accepts (z_object sh) (JObj ?kvs)"
    unfolding accepts_iff by (auto simp: z_object_def)
  with absent show ?thesis by blast
qed


lemma convert_plain:
  assumes "map_of fs ''properties'' = Some (JObj props)"
    and "''__proto__'' \<notin> fst ` set props"
  shows "convert_properties readonly (JObj fs) = Inr (z_object (stored_all (JObj fs) [] props))"
  using assms
  by (simp add: convert_properties_def andThen_def reduce_plain empty_acc_def)

lemma object_schema_valid:
  assumes "map_of fs ''type'' = Some (JStr ''object'')"
    and "map_of fs ''properties'' = Some (JObj props)"
  shows "\<not> spec_invalid_or_propertyless (JObj fs)"
  using assms by (simp add: spec_invalid_or_propertyless_def)

lemma ab_rejects:
  assumes "map_of kvs ''a'' = None"
  shows "\<not> accepts (z_object [(''a'', ZodString), (''b'', ZodOptional ZodNumber)]) (JObj kvs)"
  using assms by (simp add: accepts_iff z_object_def field_def inherited_methods_def)

lemma ab_accepts:
  assumes "map_of kvs ''a'' = Some (JStr s)" and "map_of kvs ''b'' = None"
  shows "accepts (z_object [(''a'', ZodString), (''b'', ZodOptional ZodNumber)]) (JObj kvs)"
  using assms by (simp add: accepts_iff z_object_def field_def inherited_methods_def)

text \<open>
  C5 (as amended): the validator derived from the schema with properties
  \<^verbatim>\<open>{a: string, b: number}\<close> and \<^verbatim>\<open>required: ["a"]\<close> rejects every object that omits
  \<^verbatim>\<open>a\<close> and accepts every object that has a string \<^verbatim>\<open>a\<close> and omits \<^verbatim>\<open>b\<close>. In general,
  for an object schema whose properties are an object without a property named
  \<^verbatim>\<open>__proto__\<close>, a property whose key is not a method name of \<^verbatim>\<open>Object.prototype\<close> is
  mandatory (every object that omits it is rejected) exactly when its key is in the
  \<^verbatim>\<open>required\<close> array and its declared type is \<^verbatim>\<open>string\<close>, \<^verbatim>\<open>number\<close>, \<^verbatim>\<open>boolean\<close> or
  \<^verbatim>\<open>integer\<close>.
\<close>

theorem required_marks_mandatory:
  assumes schema: "schema = JObj fs"
    and ty: "map_of fs ''type'' = Some (JStr ''object'')"
    and props: "map_of fs ''properties'' = Some (JObj props)"
    and keys: "distinct (map fst props)"
    and noproto: "''__proto__'' \<notin> fst ` set props"
    and member: "map_of props k = Some p"
    and ordinary: "k \<notin> set inherited_methods"
  shows "createSchemaModel readonly schema_ab
           = Inr (z_object [(''a'', ZodString), (''b'', ZodOptional ZodNumber)])
         \<and> (\<forall>kvs. map_of kvs ''a'' = None
               \<longrightarrow> \<not> accepts (z_object [(''a'', ZodString), (''b'', ZodOptional ZodNumber)]) (JObj kvs))
         \<and> (\<forall>kvs s. map_of kvs ''a'' = Some (JStr s) \<and> map_of kvs ''b'' = None
               \<longrightarrow> accepts (z_object [(''a'', ZodString), (''b'', ZodOptional ZodNumber)]) (JObj kvs))
         \<and> (\<exists>V. createSchemaModel readonly schema = Inr V
               \<and> ((\<forall>kvs. map_of kvs k = None \<longrightarrow> \<not> accepts V (JObj kvs))
                    \<longleftrightarrow> (isRequired schema k = Inr True \<and> declares_basic_type p)))"
proof -
  let ?sh = "stored_all schema [] props"
  let ?t = "property_validator schema k p"
  have model: "createSchemaModel readonly schema = Inr (z_object ?sh)"
    using object_schema_valid [OF ty props] convert_plain [OF props noproto]
    by (simp add: createSchemaModel_def guard_is_spec schema andThen_def try_catch_def)
  have dist: "distinct (map fst ?sh)" by (rule stored_all_distinct) simp
  have entry: "map_of ?sh k = Some ?t"
    using stored_all_lookup [OF keys, of schema "[]" k] member by simp
  from member have "(k, p) \<in> set props" by (rule map_of_SomeD)
  with noproto have k: "k \<noteq> ''__proto__''" by force
  have undefined_iff: "zod_accepts ?t JUndefined
      \<longleftrightarrow> \<not> (isRequired schema k = Inr True \<and> declares_basic_type p)"
    unfolding schema by (rule property_validator_undefined)
  have general: "(\<forall>kvs. map_of kvs k = None \<longrightarrow> \<not> accepts (z_object ?sh) (JObj kvs))
                    \<longleftrightarrow> (isRequired schema k = Inr True \<and> declares_basic_type p)"
  proof
    assume all: "\<forall>kvs. map_of kvs k = None \<longrightarrow> \<not> accepts (z_object ?sh) (JObj kvs)"
    show "isRequired schema k = Inr True \<and> declares_basic_type p"
    proof (rule ccontr)
      assume "\<not> (isRequired schema k = Inr True \<and> declares_basic_type p)"
      with undefined_iff have "zod_accepts ?t JUndefined" by simp
      from omitting_input [OF dist entry this k ordinary] all show False by blast
    qed
  next
    assume "isRequired schema k = Inr True \<and> declares_basic_type p"
    with undefined_iff have rejects: "\<not> zod_accepts ?t JUndefined" by simp
    show "\<forall>kvs. map_of kvs k = None \<longrightarrow> \<not> accepts (z_object ?sh) (JObj kvs)"
    proof (intro allI impI)
      fix kvs :: "(string \<times> jsval) list"
      assume "map_of kvs k = None"
      then have absent: "field kvs k = JUndefined" using k ordinary by (rule field_absent)
      from entry have mem: "(k, ?t) \<in> set (shape (z_object ?sh))"
        by (simp add: z_object_def map_of_SomeD)
      show "\<not> accepts (z_object ?sh) (JObj kvs)"
      proof
        assume "accepts (z_object ?sh) (JObj kvs)"
        then have "\<forall>(k', t') \<in> set (shape (z_object ?sh)). zod_accepts t' (field kvs k')"
          by (simp only: accepts_iff)
        with mem have "zod_accepts ?t (field kvs k)" by blast
        with absent rejects show False by simp
      qed
    qed
  qed
  from model general have "\<exists>V. createSchemaModel readonly schema = Inr V
               \<and> ((\<forall>kvs. map_of kvs k = None \<longrightarrow> \<not> accepts V (JObj kvs))
                    \<longleftrightarrow> (isRequired schema k = Inr True \<and> declares_basic_type p))"
    by blast
  with schema_ab_model ab_rejects ab_accepts show ?thesis by blast
qed

theorem required_marks_mandatory_witness:
  "createSchemaModel zod3_readonly schema_ab = Inr (z_object [(''a'', ZodString), (''b'', ZodOptional ZodNumber)])
   \<and> \<not> accepts (z_object [(''a'', ZodString), (''b'', ZodOptional ZodNumber)])
          (JObj [(''b'', JNum 2)])
   \<and> accepts (z_object [(''a'', ZodString), (''b'', ZodOptional ZodNumber)])
          (JObj [(''a'', JStr ''x'')])
   \<and> isRequired schema_ab ''a'' = Inr True
   \<and> declares_basic_type (JObj [(''type'', JStr ''string'')])"
proof -
  let ?props = "[(''a'', JObj [(''type'', JStr ''string'')]),
                 (''b'', JObj [(''type'', JStr ''number'')])]"
  let ?fs = "[(''type'', JStr ''object''), (''properties'', JObj ?props),
              (''required'', JArr [JStr ''a''])]"
  let ?V = "z_object [(''a'', ZodString), (''b'', ZodOptional ZodNumber)]"
  have all: "createSchemaModel zod3_readonly schema_ab = Inr ?V
         \<and> (\<forall>kvs. map_of kvs ''a'' = None \<longrightarrow> \<not> accepts ?V (JObj kvs))
         \<and> (\<forall>kvs s. map_of kvs ''a'' = Some (JStr s) \<and> map_of kvs ''b'' = None
               \<longrightarrow> accepts ?V (JObj kvs))
         \<and> (\<exists>V. createSchemaModel zod3_readonly schema_ab = Inr V
               \<and> ((\<forall>kvs. map_of kvs ''a'' = None \<longrightarrow> \<not> accepts V (JObj kvs))
                    \<longleftrightarrow> (isRequired schema_ab ''a'' = Inr True
                          \<and> declares_basic_type (JObj [(''type'', JStr ''string'')]))))"
  proof (rule required_marks_mandatory [where fs = ?fs and props = ?props])
    show "schema_ab = JObj ?fs" by (simp add: schema_ab_def)
    show "map_of ?fs ''type'' = Some (JStr ''object'')" by simp
    show "map_of ?fs ''properties'' = Some (JObj ?props)" by simp
    show "distinct (map fst ?props)" by simp
    show "''__proto__'' \<notin> fst ` set ?props" by simp
    show "map_of ?props ''a'' = Some (JObj [(''type'', JStr ''string'')])" by simp
    show "''a'' \<notin> set inherited_methods" by (simp add: inherited_methods_def)
  qed
  from all have model: "createSchemaModel zod3_readonly schema_ab = Inr ?V" by (rule conjunct1)
  from all have "\<forall>kvs. map_of kvs ''a'' = None \<longrightarrow> \<not> accepts ?V (JObj kvs)" by blast
  then have "map_of [(''b'', JNum 2)] ''a'' = None \<longrightarrow> \<not> accepts ?V (JObj [(''b'', JNum 2)])"
    by (rule spec)
  then have rejected: "\<not> accepts ?V (JObj [(''b'', JNum 2)])" by simp
  from all have "\<forall>kvs s. map_of kvs ''a'' = Some (JStr s) \<and> map_of kvs ''b'' = None
               \<longrightarrow> accepts ?V (JObj kvs)" by blast
  then have "map_of [(''a'', JStr ''x'')] ''a'' = Some (JStr ''x'')
               \<and> map_of [(''a'', JStr ''x'')] ''b'' = None
               \<longrightarrow> accepts ?V (JObj [(''a'', JStr ''x'')])" by blast
  then have accepted: "accepts ?V (JObj [(''a'', JStr ''x'')])" by simp
  have req: "isRequired schema_ab ''a'' = Inr True"
    by (simp add: isRequired_def schema_ab_def andThen_def)
  have basic: "declares_basic_type (JObj [(''type'', JStr ''string'')])"
    by (simp add: declares_basic_type_def)
  from model rejected accepted req basic show ?thesis by (intro conjI)
qed

text \<open>
  C5 as stated fails in its general part. A required property of another declared type
  gets the validator \<^verbatim>\<open>z.any()\<close>, which accepts the absent value. An optional property
  named \<^verbatim>\<open>toString\<close> is mandatory all the same: the validator reads the inherited method
  where the key is absent and rejects it. A required property named \<^verbatim>\<open>__proto__\<close> leaves no
  entry, so nothing asks for it; and when it is followed by a required
  \<^verbatim>\<open>description\<close>, the conversion throws and the fallback accepts the empty object.
\<close>

lemma schema_array_model:
  "createSchemaModel zod3_readonly schema_array = Inr (z_object [(''a'', ZodAny)])"
  by (simp add: createSchemaModel_def invalid_or_empty_def schema_array_def convert_properties_def
      andThen_def try_catch_def reducer_def isRequired_def basic_type_def assign_def empty_acc_def
      Let_def)

lemma schema_toString_model:
  "createSchemaModel zod3_readonly schema_toString
     = Inr (z_object [(''toString'', ZodOptional ZodString)])"
  by (simp add: createSchemaModel_def invalid_or_empty_def schema_toString_def
      convert_properties_def andThen_def try_catch_def reducer_def isRequired_def basic_type_def
      assign_def empty_acc_def Let_def)

lemma schema_proto_required_model:
  "createSchemaModel zod3_readonly schema_proto_required = Inr (z_object [])"
  by (simp add: createSchemaModel_def invalid_or_empty_def schema_proto_required_def
      convert_properties_def andThen_def try_catch_def reducer_def isRequired_def basic_type_def
      assign_def empty_acc_def Let_def)

lemma schema_proto_model:
  "createSchemaModel zod3_readonly schema_proto = Inr (passthrough (z_object []))"
proof -
  have "\<not> spec_invalid_or_propertyless schema_proto"
    by (simp add: spec_invalid_or_propertyless_def schema_proto_def)
  then show ?thesis
    by (simp add: createSchemaModel_def guard_is_spec andThen_def try_catch_def
        schema_proto_throws)
qed

theorem required_any_counterexample:
  "isRequired schema_array ''a'' = Inr True
   \<and> createSchemaModel zod3_readonly schema_array = Inr (z_object [(''a'', ZodAny)])
   \<and> accepts (z_object [(''a'', ZodAny)]) (JObj [])
   \<and> isRequired schema_toString ''toString'' = Inr False
   \<and> createSchemaModel zod3_readonly schema_toString
       = Inr (z_object [(''toString'', ZodOptional ZodString)])
   \<and> \<not> accepts (z_object [(''toString'', ZodOptional ZodString)]) (JObj [])
   \<and> isRequired schema_proto_required ''__proto__'' = Inr True
   \<and> createSchemaModel zod3_readonly schema_proto_required = Inr (z_object [])
   \<and> accepts (z_object []) (JObj [])
   \<and> isRequired schema_proto ''description'' = Inr True
   \<and> createSchemaModel zod3_readonly schema_proto = Inr (passthrough (z_object []))
   \<and> accepts (passthrough (z_object [])) (JObj [])"
proof (intro conjI)
  show "isRequired schema_array ''a'' = Inr True"
    by (simp add: isRequired_def schema_array_def andThen_def)
  show "createSchemaModel zod3_readonly schema_array = Inr (z_object [(''a'', ZodAny)])"
    by (rule schema_array_model)
  show "accepts (z_object [(''a'', ZodAny)]) (JObj [])"
    by (simp add: accepts_iff z_object_def)
  show "isRequired schema_toString ''toString'' = Inr False"
    by (simp add: isRequired_def schema_toString_def andThen_def)
  show "createSchemaModel zod3_readonly schema_toString
       = Inr (z_object [(''toString'', ZodOptional ZodString)])"
    by (rule schema_toString_model)
  show "\<not> accepts (z_object [(''toString'', ZodOptional ZodString)]) (JObj [])"
    by (simp add: accepts_iff z_object_def field_def inherited_methods_def)
  show "isRequired schema_proto_required ''__proto__'' = Inr True"
    by (simp add: isRequired_def schema_proto_required_def andThen_def)
  show "createSchemaModel zod3_readonly schema_proto_required = Inr (z_object [])"
    by (rule schema_proto_required_model)
  show "accepts (z_object []) (JObj [])"
    by (simp add: accepts_iff z_object_def)
  show "isRequired schema_proto ''description'' = Inr True"
    by (simp add: isRequired_def schema_proto_def andThen_def)
  show "createSchemaModel zod3_readonly schema_proto = Inr (passthrough (z_object []))"
    by (rule schema_proto_model)
  show "accepts (passthrough (z_object [])) (JObj [])"
    by (simp add: accepts_iff z_object_def passthrough_def)
qed

end
